theory Spec2Isabelle
  imports Main "HOL-Library.Char_ord" "HOL-Library.List_Lexorder"
begin

section \<open>Plugin development: \<open>pants_requirements.py\<close>\<close>

subsection \<open>Rendering integers in f-strings\<close>

text \<open>
  An f-string field holding a Python \<open>int\<close> renders it in decimal, with a leading minus
  sign for a negative number.
\<close>

definition digit_char :: "nat \<Rightarrow> char" where
  "digit_char d = ''0123456789'' ! d"

function str_nat :: "nat \<Rightarrow> string" where
  "str_nat n = (if n < 10 then [digit_char n] else str_nat (n div 10) @ [digit_char (n mod 10)])"
  by pat_completeness auto
termination
  by (relation "measure id") auto

declare str_nat.simps [simp del]

definition str_int :: "int \<Rightarrow> string" where
  "str_int i = (if i < 0 then CHR ''-'' # str_nat (nat (- i)) else str_nat (nat i))"

subsection \<open>The version constant\<close>

text \<open>
  \<open>PANTS_SEMVER\<close> is a constant of \<open>pants.version\<close>, a \<open>Version\<close> object of the
  \<open>packaging\<close> library. \<open>determine_version\<close> observes four things of it: its rendering
  \<open>str(PANTS_SEMVER)\<close>, \<open>is_devrelease\<close>, \<open>major\<close> and \<open>minor\<close>. The constant is
  a parameter of the model, given as the record of these observations.
\<close>

record version =
  version_str :: string
  is_devrelease :: bool
  major :: int
  minor :: int

definition determine_version :: "version \<Rightarrow> string" where
  "determine_version PANTS_SEMVER =
     (if is_devrelease PANTS_SEMVER then ''=='' @ version_str PANTS_SEMVER
      else (''>='' @ str_int (major PANTS_SEMVER) @ ''.'' @ str_int (minor PANTS_SEMVER) @ ''.0a0,''
            @ ''<'' @ str_int (major PANTS_SEMVER) @ ''.'' @ str_int (minor PANTS_SEMVER + 1)))"

subsection \<open>Target generation\<close>

text \<open>
  The generator target exposes the value of its \<open>testutil\<close> field. The request carries the
  generator, the template (a dict from field alias to value) and the template address.
  Field values are either a tuple of strings (what \<open>create_tgt\<close> writes) or a value of the
  template, of a type the rule does not look into.
\<close>

record generator =
  testutil :: bool

record ('v, 'a) generate_request =
  request_generator :: generator
  template :: "string \<rightharpoonup> (string list + 'v)"
  template_address :: 'a

text \<open>
  \<open>PythonRequirementTarget(fields, address, union_membership)\<close> and
  \<open>GeneratedTargets(generator, targets)\<close> are declared elsewhere; each is represented by the
  record of the arguments the rule constructs it from.
\<close>

record ('v, 'a, 'u) python_requirement_target =
  unhydrated_values :: "string \<rightharpoonup> (string list + 'v)"
  address :: 'a
  target_union_membership :: 'u

record ('v, 'a, 'u) generated_targets =
  generated_by :: generator
  targets :: "('v, 'a, 'u) python_requirement_target list"

text \<open>
  The aliases of \<open>PythonRequirementsField\<close> and \<open>PythonRequirementModulesField\<close> and the
  method \<open>Address.create_generated\<close> are declared elsewhere and are parameters.
  A dict display \<open>{k1: v1, k2: v2, **template}\<close> is filled from left to right, a later
  entry overriding an earlier one with the same key.
\<close>

record 'a target_api =
  requirements_alias :: string
  modules_alias :: string
  create_generated :: "'a \<Rightarrow> string \<Rightarrow> 'a"

definition create_tgt ::
  "'a target_api \<Rightarrow> string \<Rightarrow> ('v, 'a) generate_request \<Rightarrow> 'u \<Rightarrow> string \<Rightarrow> string
     \<Rightarrow> ('v, 'a, 'u) python_requirement_target" where
  "create_tgt api version_spec request union_membership dist module_name =
     \<lparr> unhydrated_values =
         ((Map.empty(requirements_alias api \<mapsto> Inl [dist @ version_spec]))
            (modules_alias api \<mapsto> Inl [module_name])) ++ template request,
       address = create_generated api (template_address request) dist,
       target_union_membership = union_membership \<rparr>"

definition generate_from_pants_requirements ::
  "'a target_api \<Rightarrow> version \<Rightarrow> ('v, 'a) generate_request \<Rightarrow> 'u \<Rightarrow> ('v, 'a, 'u) generated_targets" where
  "generate_from_pants_requirements api PANTS_SEMVER request union_membership =
     (let gen = request_generator request;
          version_spec = determine_version PANTS_SEMVER;
          result = [create_tgt api version_spec request union_membership ''pantsbuild.pants'' ''pants''];
          result = (if testutil gen
                    then result @ [create_tgt api version_spec request union_membership
                                      ''pantsbuild.pants.testutil'' ''pants.testutil'']
                    else result)
      in \<lparr> generated_by = gen, targets = result \<rparr>)"

section \<open>Kotlin tailor: \<open>tailor.py\<close>\<close>

subsection \<open>Paths and directory grouping\<close>

type_synonym path = string

text \<open>
  Modelled from the spec: \<open>group_by_dir\<close> of \<open>pants.core.goals.tailor\<close>, which is not
  among the sources. The spec groups a path set by parent directory: the directory key is
  the path with its final path segment removed, the empty (root) directory is a valid key,
  and the values are the sets of file basenames. Segments are separated by \<open>/\<close>.
  The result is a dict, kept here as an association list in insertion order, with a
  Python set as each value.
\<close>

definition basename :: "path \<Rightarrow> path" where
  "basename p = rev (takeWhile (\<lambda>c. c \<noteq> CHR ''/'') (rev p))"

definition dirname :: "path \<Rightarrow> path" where
  "dirname p = rev (drop 1 (dropWhile (\<lambda>c. c \<noteq> CHR ''/'') (rev p)))"

fun dict_add :: "path \<Rightarrow> path \<Rightarrow> (path \<times> path set) list \<Rightarrow> (path \<times> path set) list" where
  "dict_add d f [] = [(d, {f})]"
| "dict_add d f ((k, fs) # rest) =
     (if k = d then (k, insert f fs) # rest else (k, fs) # dict_add d f rest)"

text \<open>The value stored under a key, the empty set for a key that is absent.\<close>

definition lookup_dir :: "(path \<times> path set) list \<Rightarrow> path \<Rightarrow> path set" where
  "lookup_dir al d = (case map_of al d of None \<Rightarrow> {} | Some fs \<Rightarrow> fs)"

definition group_by_dir :: "path list \<Rightarrow> (path \<times> path set) list" where
  "group_by_dir paths = foldl (\<lambda>ret p. dict_add (dirname p) (basename p) ret) [] paths"

text \<open>
  Modelled from the spec: the reconstruction \<open>directory/basename\<close> of a path from a
  directory key and a basename. A file of the empty (root) directory is its basename alone.
\<close>

definition join_path :: "path \<Rightarrow> path \<Rightarrow> path" where
  "join_path d f = (if d = [] then f else d @ ''/'' @ f)"

text \<open>
  The paths the engine resolves are relative to the build root: none begins with \<open>/\<close>.
\<close>

definition relative_path :: "path \<Rightarrow> bool" where
  "relative_path p = (case p of [] \<Rightarrow> True | c # _ \<Rightarrow> c \<noteq> CHR ''/'')"

subsection \<open>The engine's types\<close>

text \<open>
  Modelled from the spec: the search scope (\<open>req.search_paths\<close>) and its operation
  \<open>path_globs\<close>, "glob pattern for extension X scoped to this search", producing a
  path-matching query; and \<open>PutativeTarget.for_target_type\<close>, which builds the declaration
  from the declaration type, the directory, the name and the triggering file basenames.
  None of them is among the sources.
\<close>

record PutativeTargetsSearchPaths =
  dirs :: "path list"

record PathGlobs =
  globs_scope :: "path list"
  globs_pattern :: string

definition path_globs :: "PutativeTargetsSearchPaths \<Rightarrow> string \<Rightarrow> PathGlobs" where
  "path_globs sp filename_glob = \<lparr> globs_scope = dirs sp, globs_pattern = filename_glob \<rparr>"

record Paths =
  files :: "path list"
  paths_dirs :: "path list"

record PutativeKotlinTargetsRequest =
  search_paths :: PutativeTargetsSearchPaths

record 't PutativeTarget =
  target_type :: 't
  path :: path
  name :: "string option"
  triggering_sources :: "string list"

definition for_target_type :: "'t \<Rightarrow> path \<Rightarrow> string option \<Rightarrow> string list \<Rightarrow> 't PutativeTarget" where
  "for_target_type t d n srcs = \<lparr> target_type = t, path = d, name = n, triggering_sources = srcs \<rparr>"

datatype target_cls = KotlinSourcesGeneratorTarget

subsection \<open>Python sets\<close>

text \<open>
  A Python set is a HOL set; the order in which a \<open>for\<close> loop or \<open>set(...)\<close> visits its
  elements is not fixed by the language and is a parameter \<open>iter\<close> of the model. All that
  is known of it is that it visits the elements of the set. \<open>sorted(s)\<close> on a set of
  strings is \<open>sorted_list_of_set\<close>, strings being ordered lexicographically by character
  code.
\<close>

definition set_iteration :: "('a set \<Rightarrow> 'a list) \<Rightarrow> bool" where
  "set_iteration iter \<longleftrightarrow> (\<forall>S. finite S \<longrightarrow> set (iter S) = S)"

subsection \<open>The rule\<close>

definition classify_source_files :: "path list \<Rightarrow> (target_cls \<times> path set) list" where
  "classify_source_files paths = (let sources_files = set paths in
     [(KotlinSourcesGeneratorTarget, sources_files)])"

text \<open>
  Lines 46 to 53: the two nested loops over the classification and over the directory
  groups of each type, appending one declaration per group.
\<close>

definition putative_targets_loop ::
  "(path set \<Rightarrow> path list) \<Rightarrow> ('t \<times> path set) list \<Rightarrow> 't PutativeTarget list" where
  "putative_targets_loop iter classified =
     foldl (\<lambda>putative_targets (tgt_type, paths).
              foldl (\<lambda>putative_targets (d, filenames).
                       putative_targets
                         @ [for_target_type tgt_type d None (sorted_list_of_set filenames)])
                    putative_targets (group_by_dir (iter paths)))
           [] classified"

text \<open>
  \<open>await Get(Paths, PathGlobs, globs)\<close> is the one effect of the rule: a request to the
  engine, which answers with the paths or fails. The engine is a parameter \<open>get_paths\<close>
  that takes the engine's state and returns the answer and the new state; a failure is
  \<open>Inl\<close> of the error, and the rule, having no handler, fails with it.
\<close>

definition unowned_files :: "Paths \<Rightarrow> path list \<Rightarrow> path set" where
  "unowned_files all_kotlin_files all_owned_sources =
     set (files all_kotlin_files) - set all_owned_sources"

definition find_putative_targets ::
  "(path set \<Rightarrow> path list) \<Rightarrow> (PathGlobs \<Rightarrow> 's \<Rightarrow> ('e + Paths) \<times> 's)
     \<Rightarrow> PutativeKotlinTargetsRequest \<Rightarrow> path list \<Rightarrow> 's
     \<Rightarrow> ('e + target_cls PutativeTarget list) \<times> 's" where
  "find_putative_targets iter get_paths req all_owned_sources s =
     (let all_kotlin_files_globs = path_globs (search_paths req) ''*.kt'' in
      case get_paths all_kotlin_files_globs s of
        (Inl err, s') \<Rightarrow> (Inl err, s')
      | (Inr all_kotlin_files, s') \<Rightarrow>
          (let unowned_kotlin_files = unowned_files all_kotlin_files all_owned_sources;
               classified_unowned_kotlin_files =
                 classify_source_files (iter unowned_kotlin_files)
           in (Inr (putative_targets_loop iter classified_unowned_kotlin_files), s')))"

text \<open>The paths reconstructed from the declarations of a result.\<close>

definition emitted_paths :: "'t PutativeTarget list \<Rightarrow> path list" where
  "emitted_paths ds = concat (map (\<lambda>x. map (join_path (path x)) (triggering_sources x)) ds)"

text \<open>
  The sequence of declaration types made of one block per entry \<open>(t, n)\<close>: \<open>n\<close> times
  the type \<open>t\<close>, the blocks in the order of the entries.
\<close>

definition type_blocks :: "('t \<times> nat) list \<Rightarrow> 't list" where
  "type_blocks tn = concat (map (\<lambda>(t, n). replicate n t) tn)"

subsection \<open>A sample scan\<close>

text \<open>
  The scenario of the spec: three Kotlin files in two directories, an engine that answers
  every request with them and counts the requests in its state, and an engine that fails.
\<close>

definition sample_files :: Paths where
  "sample_files = \<lparr> files = [''a/Foo.kt'', ''a/Bar.kt'', ''b/Baz.kt''], paths_dirs = [] \<rparr>"

definition sample_engine :: "PathGlobs \<Rightarrow> nat \<Rightarrow> (string + Paths) \<times> nat" where
  "sample_engine g s = (Inr sample_files, Suc s)"

definition failing_engine :: "PathGlobs \<Rightarrow> nat \<Rightarrow> (string + Paths) \<times> nat" where
  "failing_engine g s = (Inl ''permission denied'', Suc s)"

definition sample_request :: PutativeKotlinTargetsRequest where
  "sample_request = \<lparr> search_paths = \<lparr> dirs = [[]] \<rparr> \<rparr>"

text \<open>A classification into two declaration types, named by strings.\<close>

definition sample_classification :: "(string \<times> path set) list" where
  "sample_classification =
     [(''kotlin_sources'', {''a/Foo.kt'', ''b/Baz.kt'', ''c/Qux.kt''}),
      (''kotlin_tests'', {''a/FooTest.kt''})]"

section \<open>Properties of \<open>pants_requirements.py\<close>\<close>

lemma determine_version_dev:
  "is_devrelease v \<Longrightarrow> determine_version v = ''=='' @ version_str v"
  by (simp add: determine_version_def)

lemma determine_version_series:
  "\<not> is_devrelease v \<Longrightarrow>
     determine_version v =
       ''>='' @ str_int (major v) @ ''.'' @ str_int (minor v) @ ''.0a0,<''
         @ str_int (major v) @ ''.'' @ str_int (minor v + 1)"
  by (simp add: determine_version_def)

lemma determine_version_pin_iff:
  "(\<exists>s. determine_version v = ''=='' @ s) \<longleftrightarrow> is_devrelease v"
  by (auto simp: determine_version_def)

text \<open>
  C9. \<open>determine_version\<close> is a function of \<open>PANTS_SEMVER\<close> alone. For a dev release it
  returns the exact pin \<open>==<version>\<close>; otherwise it returns the range
  \<open>>=<major>.<minor>.0a0,<<major>.<minor+1>\<close>; and its result is an exact pin (begins
  with \<open>==\<close>) if and only if \<open>PANTS_SEMVER\<close> is a dev release.
\<close>

theorem determine_version_spec:
  "(is_devrelease v \<longrightarrow> determine_version v = ''=='' @ version_str v)
   \<and> (\<not> is_devrelease v \<longrightarrow>
        determine_version v =
          ''>='' @ str_int (major v) @ ''.'' @ str_int (minor v) @ ''.0a0,<''
            @ str_int (major v) @ ''.'' @ str_int (minor v + 1))
   \<and> ((\<exists>s. determine_version v = ''=='' @ s) \<longleftrightarrow> is_devrelease v)"
  using determine_version_dev determine_version_series determine_version_pin_iff by blast

theorem determine_version_spec_witness:
  "determine_version \<lparr>version_str = ''2.17.0.dev3'', is_devrelease = True, major = 2, minor = 17\<rparr>
     = ''==2.17.0.dev3''
   \<and> determine_version \<lparr>version_str = ''2.17.0rc1'', is_devrelease = False, major = 2, minor = 17\<rparr>
     = ''>=2.17.0a0,<2.18''
   \<and> \<not> (\<exists>s. determine_version \<lparr>version_str = ''2.17.0rc1'', is_devrelease = False, major = 2, minor = 17\<rparr>
             = ''=='' @ s)"
  using determine_version_spec
          [of "\<lparr>version_str = ''2.17.0.dev3'', is_devrelease = True, major = 2, minor = 17\<rparr>"]
        determine_version_spec
          [of "\<lparr>version_str = ''2.17.0rc1'', is_devrelease = False, major = 2, minor = 17\<rparr>"]
  by (simp add: str_int_def str_nat.simps digit_char_def)

lemma targets_generate_from_pants_requirements:
  "targets (generate_from_pants_requirements api v request um) =
     create_tgt api (determine_version v) request um ''pantsbuild.pants'' ''pants''
       # (if testutil (request_generator request)
          then [create_tgt api (determine_version v) request um
                  ''pantsbuild.pants.testutil'' ''pants.testutil'']
          else [])"
  by (simp add: generate_from_pants_requirements_def Let_def)

lemma requirement_create_tgt:
  assumes "requirements_alias api \<noteq> modules_alias api"
    and "requirements_alias api \<notin> dom (template request)"
  shows "unhydrated_values (create_tgt api vs request um dist m) (requirements_alias api)
           = Some (Inl [dist @ vs])"
  using assms by (auto simp: create_tgt_def map_add_def split: option.splits)

text \<open>
  C10. The rule returns the target generated for \<open>pantsbuild.pants\<close>, followed by the one
  for \<open>pantsbuild.pants.testutil\<close> exactly when the generator's \<open>testutil\<close> value is true,
  and nothing else: one target or two. Each target's address is generated from the
  template address under the distribution's name, and (the template not overriding the
  requirements entry) its requirement is the distribution's name followed by the result of
  \<open>determine_version\<close>.
\<close>

theorem generate_from_pants_requirements_spec:
  "targets (generate_from_pants_requirements api v request um) =
     map (\<lambda>(dist, m). create_tgt api (determine_version v) request um dist m)
       ((''pantsbuild.pants'', ''pants'')
          # (if testutil (request_generator request)
             then [(''pantsbuild.pants.testutil'', ''pants.testutil'')] else []))
   \<and> length (targets (generate_from_pants_requirements api v request um)) =
       (if testutil (request_generator request) then 2 else 1)
   \<and> map address (targets (generate_from_pants_requirements api v request um)) =
       map (create_generated api (template_address request))
         (''pantsbuild.pants''
            # (if testutil (request_generator request) then [''pantsbuild.pants.testutil''] else []))
   \<and> (requirements_alias api \<noteq> modules_alias api
        \<and> requirements_alias api \<notin> dom (template request) \<longrightarrow>
        map (\<lambda>t. unhydrated_values t (requirements_alias api))
            (targets (generate_from_pants_requirements api v request um)) =
          map (\<lambda>dist. Some (Inl [dist @ determine_version v]))
            (''pantsbuild.pants''
               # (if testutil (request_generator request) then [''pantsbuild.pants.testutil''] else [])))"
proof -
  have "map address (targets (generate_from_pants_requirements api v request um)) =
       map (create_generated api (template_address request))
         (''pantsbuild.pants''
            # (if testutil (request_generator request) then [''pantsbuild.pants.testutil''] else []))"
    by (simp add: targets_generate_from_pants_requirements create_tgt_def)
  moreover have "requirements_alias api \<noteq> modules_alias api
        \<and> requirements_alias api \<notin> dom (template request) \<longrightarrow>
        map (\<lambda>t. unhydrated_values t (requirements_alias api))
            (targets (generate_from_pants_requirements api v request um)) =
          map (\<lambda>dist. Some (Inl [dist @ determine_version v]))
            (''pantsbuild.pants''
               # (if testutil (request_generator request) then [''pantsbuild.pants.testutil''] else []))"
    by (simp add: targets_generate_from_pants_requirements requirement_create_tgt)
  ultimately show ?thesis
    by (simp add: targets_generate_from_pants_requirements)
qed

theorem generate_from_pants_requirements_spec_witness:
  "map address (targets (generate_from_pants_requirements
       \<lparr>requirements_alias = ''requirements'', modules_alias = ''modules'',
        create_generated = (\<lambda>a n. a @ ''#'' @ n)\<rparr>
       \<lparr>version_str = ''2.17.0.dev3'', is_devrelease = True, major = 2, minor = 17\<rparr>
       \<lparr>request_generator = \<lparr>testutil = True\<rparr>,
        template = [''resolve'' \<mapsto> Inr ''plugins''], template_address = ''3rdparty:pants''\<rparr>
       ()))
     = [''3rdparty:pants#pantsbuild.pants'', ''3rdparty:pants#pantsbuild.pants.testutil'']
   \<and> map (\<lambda>t. unhydrated_values t ''requirements'') (targets (generate_from_pants_requirements
       \<lparr>requirements_alias = ''requirements'', modules_alias = ''modules'',
        create_generated = (\<lambda>a n. a @ ''#'' @ n)\<rparr>
       \<lparr>version_str = ''2.17.0.dev3'', is_devrelease = True, major = 2, minor = 17\<rparr>
       \<lparr>request_generator = \<lparr>testutil = True\<rparr>,
        template = [''resolve'' \<mapsto> Inr ''plugins''], template_address = ''3rdparty:pants''\<rparr>
       ()))
     = [Some (Inl [''pantsbuild.pants==2.17.0.dev3'']),
        Some (Inl [''pantsbuild.pants.testutil==2.17.0.dev3''])]
   \<and> length (targets (generate_from_pants_requirements
       \<lparr>requirements_alias = ''requirements'', modules_alias = ''modules'',
        create_generated = (\<lambda>a n. a @ ''#'' @ n)\<rparr>
       \<lparr>version_str = ''2.17.0.dev3'', is_devrelease = True, major = 2, minor = 17\<rparr>
       \<lparr>request_generator = \<lparr>testutil = False\<rparr>,
        template = [''resolve'' \<mapsto> Inr ''plugins''], template_address = ''3rdparty:pants''\<rparr>
       ())) = 1"
  using generate_from_pants_requirements_spec
          [of "\<lparr>requirements_alias = ''requirements'', modules_alias = ''modules'',
                create_generated = (\<lambda>a n. a @ ''#'' @ n)\<rparr>"
              "\<lparr>version_str = ''2.17.0.dev3'', is_devrelease = True, major = 2, minor = 17\<rparr>"
              "\<lparr>request_generator = \<lparr>testutil = True\<rparr>,
                template = [''resolve'' \<mapsto> Inr ''plugins''], template_address = ''3rdparty:pants''\<rparr>"
              "()"]
        generate_from_pants_requirements_spec
          [of "\<lparr>requirements_alias = ''requirements'', modules_alias = ''modules'',
                create_generated = (\<lambda>a n. a @ ''#'' @ n)\<rparr>"
              "\<lparr>version_str = ''2.17.0.dev3'', is_devrelease = True, major = 2, minor = 17\<rparr>"
              "\<lparr>request_generator = \<lparr>testutil = False\<rparr>,
                template = [''resolve'' \<mapsto> Inr ''plugins''], template_address = ''3rdparty:pants''\<rparr>"
              "()"]
  by (simp add: determine_version_def create_tgt_def)

section \<open>Properties of \<open>tailor.py\<close>\<close>

subsection \<open>Paths and grouping\<close>

lemma join_split: "relative_path p \<Longrightarrow> join_path (dirname p) (basename p) = p"
proof -
  assume rel: "relative_path p"
  let ?P = "\<lambda>c. c \<noteq> CHR ''/''"
  have eq: "rev p = takeWhile ?P (rev p) @ dropWhile ?P (rev p)" by simp
  show ?thesis
  proof (cases "dropWhile ?P (rev p)")
    case Nil
    then have tw: "takeWhile ?P (rev p) = rev p" using eq by simp
    have d: "dirname p = []" unfolding dirname_def Nil by simp
    have b: "basename p = p" unfolding basename_def tw by simp
    show ?thesis by (simp add: join_path_def d b)
  next
    case (Cons c rest)
    then have c: "c = CHR ''/''" using hd_dropWhile[of ?P "rev p"] by auto
    have d: "dirname p = rev rest" unfolding dirname_def Cons by simp
    have "rev (rev p) = rev (takeWhile ?P (rev p) @ c # rest)" using eq Cons by simp
    then have p: "p = rev rest @ [c] @ basename p"
      by (simp add: basename_def)
    have "rev rest \<noteq> []"
    proof
      assume "rev rest = []"
      then have "p = c # basename p" using p by simp
      then show False using rel c by (cases p) (auto simp: relative_path_def)
    qed
    then show ?thesis using p c d
      by (simp add: join_path_def)
  qed
qed

lemma map_of_dict_add:
  "map_of (dict_add d f al) = (map_of al)(d \<mapsto> insert f (lookup_dir al d))"
  by (induction al) (auto simp: lookup_dir_def)

lemma keys_dict_add:
  "map fst (dict_add d f al) = (if d \<in> fst ` set al then map fst al else map fst al @ [d])"
  by (induction al) force+

lemma lookup_dict_add:
  "lookup_dir (dict_add d f al) k = (if k = d then insert f (lookup_dir al d) else lookup_dir al k)"
  by (simp add: lookup_dir_def map_of_dict_add)

lemma group_fold_distinct:
  "distinct (map fst al) \<Longrightarrow>
   distinct (map fst (foldl (\<lambda>ret p. dict_add (dirname p) (basename p) ret) al ps))"
  by (induction ps arbitrary: al) (auto simp: keys_dict_add)

lemma group_fold_keyset:
  "fst ` set (foldl (\<lambda>ret p. dict_add (dirname p) (basename p) ret) al ps)
     = fst ` set al \<union> dirname ` set ps"
proof (induction ps arbitrary: al)
  case Nil then show ?case by simp
next
  case (Cons p ps)
  have "fst ` set (dict_add (dirname p) (basename p) al) = insert (dirname p) (fst ` set al)"
    using keys_dict_add[of "dirname p" "basename p" al]
    by (metis (no_types, lifting) insert_absorb list.set_map set_append list.simps(15) Un_insert_right sup_bot.right_neutral empty_set)
  then show ?case using Cons by auto
qed

lemma group_fold_lookup:
  "lookup_dir (foldl (\<lambda>ret p. dict_add (dirname p) (basename p) ret) al ps) d
     = lookup_dir al d \<union> basename ` {p \<in> set ps. dirname p = d}"
  by (induction ps arbitrary: al) (auto simp: lookup_dict_add)


lemma distinct_keys_group_by_dir: "distinct (map fst (group_by_dir ps))"
  unfolding group_by_dir_def by (rule group_fold_distinct) simp

lemma keys_group_by_dir: "fst ` set (group_by_dir ps) = dirname ` set ps"
  unfolding group_by_dir_def by (simp add: group_fold_keyset)

lemma lookup_group_by_dir:
  "lookup_dir (group_by_dir ps) d = basename ` {p \<in> set ps. dirname p = d}"
proof -
  have "lookup_dir [] d = {}" by (simp add: lookup_dir_def)
  then show ?thesis by (simp add: group_by_dir_def group_fold_lookup)
qed

lemma group_by_dir_value:
  assumes "(d, fs) \<in> set (group_by_dir ps)"
  shows "fs = basename ` {p \<in> set ps. dirname p = d}"
proof -
  have "map_of (group_by_dir ps) d = Some fs"
    using assms distinct_keys_group_by_dir by (simp add: map_of_eq_Some_iff)
  then have "lookup_dir (group_by_dir ps) d = fs" by (simp add: lookup_dir_def)
  then show ?thesis by (simp add: lookup_group_by_dir)
qed

lemma group_by_dir_Nil_iff: "group_by_dir ps = [] \<longleftrightarrow> ps = []"
proof
  assume "group_by_dir ps = []"
  then have "dirname ` set ps = {}" using keys_group_by_dir[of ps] by simp
  then show "ps = []" by simp
next
  assume "ps = []" then show "group_by_dir ps = []" by (simp add: group_by_dir_def)
qed

lemma inner_loop_eq:
  "foldl (\<lambda>acc (d, fs). acc @ [h d fs]) acc xs = acc @ map (\<lambda>(d, fs). h d fs) xs"
  by (induction xs arbitrary: acc) auto

lemma outer_loop_eq:
  "foldl (\<lambda>acc (t, ps). foldl (\<lambda>acc (d, fs). acc @ [h t d fs]) acc (G ps)) acc cl
     = acc @ concat (map (\<lambda>(t, ps). map (\<lambda>(d, fs). h t d fs) (G ps)) cl)"
  by (induction cl arbitrary: acc) (auto simp: inner_loop_eq)

lemma putative_targets_loop_eq:
  "putative_targets_loop iter classified =
     concat (map (\<lambda>(t, ps). map (\<lambda>(d, fs). for_target_type t d None (sorted_list_of_set fs))
                               (group_by_dir (iter ps))) classified)"
  unfolding putative_targets_loop_def
  using outer_loop_eq[of "\<lambda>t d fs. for_target_type t d None (sorted_list_of_set fs)"
                         "\<lambda>ps. group_by_dir (iter ps)" "[]" classified]
  by simp

lemma finite_unowned_files: "finite (unowned_files all owned)"
  by (simp add: unowned_files_def)

lemma find_putative_targets_Inr:
  assumes "set_iteration iter"
    and "get_paths (path_globs (search_paths req) ''*.kt'') s = (Inr all, s')"
  shows "find_putative_targets iter get_paths req owned s =
           (Inr (map (\<lambda>(d, fs). for_target_type KotlinSourcesGeneratorTarget d None
                                   (sorted_list_of_set fs))
                     (group_by_dir (iter (unowned_files all owned)))), s')"
proof -
  have "set (iter (unowned_files all owned)) = unowned_files all owned"
    using assms(1) finite_unowned_files by (simp add: set_iteration_def)
  then show ?thesis
    using assms(2)
    by (simp add: find_putative_targets_def classify_source_files_def Let_def
                  putative_targets_loop_eq)
qed


text \<open>
  C2. The classifier is total: for every input it returns a mapping from declaration type
  to path sets, with distinct keys, whose values together are exactly the input paths, and
  every input path lies under exactly one declaration type.
\<close>

theorem classify_source_files_total:
  "distinct (map fst (classify_source_files ps))
   \<and> \<Union> (snd ` set (classify_source_files ps)) = set ps
   \<and> (\<forall>p \<in> set ps. \<exists>!t. \<exists>S. (t, S) \<in> set (classify_source_files ps) \<and> p \<in> S)"
  by (auto simp: classify_source_files_def)

theorem classify_source_files_total_witness:
  "''a/Foo.kt'' \<in> set [''a/Foo.kt'', ''b/Baz.kt'']
   \<and> (\<exists>!t. \<exists>S. (t, S) \<in> set (classify_source_files [''a/Foo.kt'', ''b/Baz.kt'']) \<and> ''a/Foo.kt'' \<in> S)
   \<and> \<Union> (snd ` set (classify_source_files [''a/Foo.kt'', ''b/Baz.kt''])) = {''a/Foo.kt'', ''b/Baz.kt''}"
proof -
  have m: "''a/Foo.kt'' \<in> set [''a/Foo.kt'', ''b/Baz.kt'']" by simp
  show ?thesis
    using m classify_source_files_total [of "[''a/Foo.kt'', ''b/Baz.kt'']"] by auto
qed

text \<open>
  C8. If the engine's path resolution fails, the rule fails with the same error, in the
  state the single request left, and returns no declarations; if it succeeds, the rule
  returns the full declaration sequence. There is no third outcome.
\<close>

theorem find_putative_targets_all_or_nothing:
  "(get_paths (path_globs (search_paths req) ''*.kt'') s = (Inl err, s') \<longrightarrow>
      find_putative_targets iter get_paths req owned s = (Inl err, s'))
   \<and> (get_paths (path_globs (search_paths req) ''*.kt'') s = (Inr all, s') \<longrightarrow>
      find_putative_targets iter get_paths req owned s =
        (Inr (putative_targets_loop iter
                (classify_source_files (iter (unowned_files all owned)))), s'))"
  by (simp add: find_putative_targets_def Let_def)

theorem find_putative_targets_all_or_nothing_witness:
  "find_putative_targets sorted_list_of_set failing_engine sample_request [] 0
     = (Inl ''permission denied'', 1)
   \<and> find_putative_targets sorted_list_of_set sample_engine sample_request [] 0
     = (Inr (putative_targets_loop sorted_list_of_set
               (classify_source_files (sorted_list_of_set (unowned_files sample_files [])))), 1)"
proof -
  have f: "failing_engine (path_globs (search_paths sample_request) ''*.kt'') 0
             = (Inl ''permission denied'', 1)"
    by (simp add: failing_engine_def)
  have g: "sample_engine (path_globs (search_paths sample_request) ''*.kt'') 0
             = (Inr sample_files, 1)"
    by (simp add: sample_engine_def)
  show ?thesis
    using f g
      find_putative_targets_all_or_nothing
        [of failing_engine sample_request 0 "''permission denied''" 1 sorted_list_of_set "[]"]
      find_putative_targets_all_or_nothing
        [of sample_engine sample_request 0 _ 1 sorted_list_of_set "[]" sample_files]
    by blast
qed

text \<open>
  The second scenario of the spec: with \<open>a/Foo.kt\<close> owned, the scan proposes one target
  for \<open>a\<close> with \<open>Bar.kt\<close> and one for \<open>b\<close> with \<open>Baz.kt\<close>.
\<close>

lemma scenario_one_owned: "find_putative_targets sorted_list_of_set sample_engine sample_request [''a/Foo.kt''] 0
   = (Inr [\<lparr>target_type = KotlinSourcesGeneratorTarget, path = ''a'', name = None, triggering_sources = [''Bar.kt'']\<rparr>,
           \<lparr>target_type = KotlinSourcesGeneratorTarget, path = ''b'', name = None, triggering_sources = [''Baz.kt'']\<rparr>], 1)"
  by code_simp

subsection \<open>The emitted declarations\<close>

lemma unowned_files_empty:
  "files all = [] \<or> set (files all) \<subseteq> set owned \<Longrightarrow> unowned_files all owned = {}"
  by (auto simp: unowned_files_def)

lemma set_iteration_empty: "set_iteration iter \<Longrightarrow> iter {} = []"
  unfolding set_iteration_def by (metis finite.emptyI set_empty)

lemma find_putative_targets_no_unowned:
  assumes "set_iteration iter"
    and "get_paths (path_globs (search_paths req) ''*.kt'') s = (Inr all, s')"
    and "unowned_files all owned = {}"
  shows "find_putative_targets iter get_paths req owned s = (Inr [], s')"
  using assms
  by (simp add: find_putative_targets_Inr set_iteration_empty group_by_dir_def)

text \<open>
  C4. If the resolution returns no file, or every file it returns is owned, the rule
  returns the empty declaration sequence.
\<close>

theorem find_putative_targets_nothing_unowned:
  assumes "set_iteration iter"
    and "get_paths (path_globs (search_paths req) ''*.kt'') s = (Inr all, s')"
    and "files all = [] \<or> set (files all) \<subseteq> set owned"
  shows "find_putative_targets iter get_paths req owned s = (Inr [], s')"
  using assms(1,2) unowned_files_empty[OF assms(3)]
  by (rule find_putative_targets_no_unowned)

lemma set_iteration_sorted_list_of_set: "set_iteration sorted_list_of_set"
  by (simp add: set_iteration_def)

lemma sample_engine_answer:
  "sample_engine (path_globs (search_paths sample_request) ''*.kt'') s = (Inr sample_files, Suc s)"
  by (simp add: sample_engine_def)

theorem find_putative_targets_nothing_unowned_witness:
  "find_putative_targets sorted_list_of_set sample_engine sample_request
     [''b/Baz.kt'', ''a/Bar.kt'', ''a/Foo.kt'', ''c/Other.kt''] 0 = (Inr [], Suc 0)"
proof -
  have "files sample_files = []
        \<or> set (files sample_files) \<subseteq> set [''b/Baz.kt'', ''a/Bar.kt'', ''a/Foo.kt'', ''c/Other.kt'']"
    by (simp add: sample_files_def)
  then show ?thesis
    using find_putative_targets_nothing_unowned
            [of sorted_list_of_set sample_engine sample_request 0 sample_files "Suc 0"
                "[''b/Baz.kt'', ''a/Bar.kt'', ''a/Foo.kt'', ''c/Other.kt'']"]
          set_iteration_sorted_list_of_set sample_engine_answer [of 0]
    by blast
qed




text \<open>
  The first scenario of the spec: with nothing owned, the scan proposes one target for
  \<open>a\<close> with \<open>Bar.kt\<close> and \<open>Foo.kt\<close>, and one for \<open>b\<close> with \<open>Baz.kt\<close>.
\<close>

lemma scenario_nothing_owned:
  "find_putative_targets sorted_list_of_set sample_engine sample_request [] 0
   = (Inr [\<lparr>target_type = KotlinSourcesGeneratorTarget, path = ''a'', name = None,
            triggering_sources = [''Bar.kt'', ''Foo.kt'']\<rparr>,
           \<lparr>target_type = KotlinSourcesGeneratorTarget, path = ''b'', name = None,
            triggering_sources = [''Baz.kt'']\<rparr>], 1)"
  by code_simp

lemma type_blocks_Cons: "type_blocks ((t, n) # tn) = replicate n t @ type_blocks tn"
  by (simp add: type_blocks_def)

lemma set_type_blocks: "set (type_blocks tn) \<subseteq> fst ` set tn"
  by (induction tn) (auto simp: type_blocks_def)

lemma type_blocks_contiguous:
  "distinct (map fst tn) \<Longrightarrow> i < j \<Longrightarrow> j < k \<Longrightarrow> k < length (type_blocks tn)
     \<Longrightarrow> type_blocks tn ! i = type_blocks tn ! k \<Longrightarrow> type_blocks tn ! j = type_blocks tn ! i"
proof (induction tn arbitrary: i j k)
  case Nil
  then show ?case by (simp add: type_blocks_def)
next
  case (Cons a tn)
  obtain t n where a: "a = (t, n)" by (cases a)
  have B: "type_blocks (a # tn) = replicate n t @ type_blocks tn"
    by (simp add: a type_blocks_Cons)
  have notin: "t \<notin> set (type_blocks tn)"
    using Cons.prems(1) set_type_blocks[of tn] a by auto
  consider (first) "k < n" | (rest) "n \<le> i" | (across) "i < n" "n \<le> k" by linarith
  then show ?case
  proof cases
    case first
    then show ?thesis using Cons.prems(2,3) by (simp add: B nth_append)
  next
    case rest
    have d: "distinct (map fst tn)" using Cons.prems(1) by simp
    have "type_blocks tn ! (j - n) = type_blocks tn ! (i - n)"
    proof (rule Cons.IH[OF d])
      show "i - n < j - n" using rest Cons.prems(2) by linarith
      show "j - n < k - n" using rest Cons.prems(2,3) by linarith
      show "k - n < length (type_blocks tn)" using rest Cons.prems(2,3,4) by (simp add: B)
      show "type_blocks tn ! (i - n) = type_blocks tn ! (k - n)"
        using rest Cons.prems(2,3,5) by (simp add: B nth_append)
    qed
    then show ?thesis using rest Cons.prems(2,3) by (simp add: B nth_append)
  next
    case across
    have "type_blocks (a # tn) ! i = t" using across(1) by (simp add: B nth_append)
    moreover have "type_blocks (a # tn) ! k = type_blocks tn ! (k - n)"
      using across(2) by (simp add: B nth_append)
    moreover have "type_blocks tn ! (k - n) \<in> set (type_blocks tn)"
      using across(2) Cons.prems(4) by (simp add: B)
    ultimately show ?thesis using notin Cons.prems(5) by metis
  qed
qed

lemma types_of_loop:
  "map target_type (putative_targets_loop iter classified) =
     type_blocks (map (\<lambda>(t, ps). (t, length (group_by_dir (iter ps)))) classified)"
proof (induction classified)
  case Nil
  then show ?case by (simp add: putative_targets_loop_eq type_blocks_def)
next
  case (Cons a cl)
  obtain t ps where a: "a = (t, ps)" by (cases a)
  have "map target_type (map (\<lambda>(d, fs). for_target_type t d None (sorted_list_of_set fs))
                              (group_by_dir (iter ps)))
          = replicate (length (group_by_dir (iter ps))) t"
    by (simp add: map_replicate_const[symmetric] for_target_type_def case_prod_beta)
  then show ?case using Cons
    by (simp add: putative_targets_loop_eq a type_blocks_Cons)
qed

text \<open>
  C7. The loop of lines 46 to 53, for any classification: the types of the emitted
  declarations are one block per entry of the classification, in the order of the entries,
  as long as the number of directory groups of that entry. The keys of a dict being
  distinct, no two declarations of one type are separated by a declaration of another
  type. The sequence the rule returns is the result of this loop on the classification of
  the unowned files.
\<close>

theorem declarations_grouped_by_type:
  "map target_type (putative_targets_loop iter classified) =
     type_blocks (map (\<lambda>(t, ps). (t, length (group_by_dir (iter ps)))) classified)
   \<and> (distinct (map fst classified) \<longrightarrow>
        (\<forall>i j k. i < j \<and> j < k \<and> k < length (putative_targets_loop iter classified)
             \<and> target_type (putative_targets_loop iter classified ! i)
                 = target_type (putative_targets_loop iter classified ! k)
           \<longrightarrow> target_type (putative_targets_loop iter classified ! j)
                 = target_type (putative_targets_loop iter classified ! i)))
   \<and> (get_paths (path_globs (search_paths req) ''*.kt'') s = (Inr all, s') \<longrightarrow>
        fst (find_putative_targets iter get_paths req owned s) =
          Inr (putative_targets_loop iter
                 (classify_source_files (iter (unowned_files all owned)))))"
proof -
  let ?ds = "putative_targets_loop iter classified"
  let ?tn = "map (\<lambda>(t, ps). (t, length (group_by_dir (iter ps)))) classified"
  have T: "map target_type ?ds = type_blocks ?tn" by (rule types_of_loop)
  have C: "target_type (?ds ! j) = target_type (?ds ! i)"
    if d: "distinct (map fst classified)" and ij: "i < j" and jk: "j < k"
      and k: "k < length ?ds" and e: "target_type (?ds ! i) = target_type (?ds ! k)"
    for i j k
  proof -
    have fstmap: "map fst ?tn = map fst classified" by (simp add: case_prod_beta)
    have len: "length (type_blocks ?tn) = length ?ds" using T by (metis length_map)
    have nth: "type_blocks ?tn ! m = target_type (?ds ! m)" if "m < length ?ds" for m
      using T that by (metis nth_map)
    have "type_blocks ?tn ! j = type_blocks ?tn ! i"
    proof (rule type_blocks_contiguous)
      show "distinct (map fst ?tn)" using d unfolding fstmap .
      show "i < j" by (rule ij)
      show "j < k" by (rule jk)
      show "k < length (type_blocks ?tn)" using k len by simp
      show "type_blocks ?tn ! i = type_blocks ?tn ! k"
        using nth[of i] nth[of k] e ij jk k by simp
    qed
    then show ?thesis using nth[of i] nth[of j] ij jk k by simp
  qed
  have F: "get_paths (path_globs (search_paths req) ''*.kt'') s = (Inr all, s') \<longrightarrow>
        fst (find_putative_targets iter get_paths req owned s) =
          Inr (putative_targets_loop iter
                 (classify_source_files (iter (unowned_files all owned))))"
    by (simp add: find_putative_targets_def Let_def)
  show ?thesis using T C F by blast
qed

theorem declarations_grouped_by_type_witness:
  "distinct (map fst sample_classification)
   \<and> map target_type (putative_targets_loop sorted_list_of_set sample_classification)
       = [''kotlin_sources'', ''kotlin_sources'', ''kotlin_sources'', ''kotlin_tests'']
   \<and> (0::nat) < 1 \<and> (1::nat) < 2
   \<and> 2 < length (putative_targets_loop sorted_list_of_set sample_classification)
   \<and> target_type (putative_targets_loop sorted_list_of_set sample_classification ! 0)
       = target_type (putative_targets_loop sorted_list_of_set sample_classification ! 2)
   \<and> target_type (putative_targets_loop sorted_list_of_set sample_classification ! 1)
       = target_type (putative_targets_loop sorted_list_of_set sample_classification ! 0)"
proof -
  let ?ds = "putative_targets_loop sorted_list_of_set sample_classification"
  have d: "distinct (map fst sample_classification)"
    by (simp add: sample_classification_def)
  have v: "map target_type ?ds
       = [''kotlin_sources'', ''kotlin_sources'', ''kotlin_sources'', ''kotlin_tests'']"
    by code_simp
  have "length (map target_type ?ds) = 4" unfolding v by simp
  then have len: "length ?ds = 4" by simp
  then have l: "2 < length ?ds" by simp
  have "map target_type ?ds ! 0 = map target_type ?ds ! 2" unfolding v by simp
  then have e: "target_type (?ds ! 0) = target_type (?ds ! 2)"
    using len by simp
  have c: "target_type (?ds ! 1) = target_type (?ds ! 0)"
    using mp [OF declarations_grouped_by_type
                   [of sorted_list_of_set sample_classification, THEN conjunct2, THEN conjunct1] d,
              THEN spec, THEN spec, THEN spec, of 0 1 2] l e
    by simp
  show ?thesis
    by (intro conjI) (rule d, rule v, simp, simp, rule l, rule e, rule c)
qed

subsection \<open>Declarations and the unowned files\<close>

lemma declaration_of_group:
  assumes it: "set (iter U) = U"
    and x: "x \<in> set (map (\<lambda>(d, fs). for_target_type t d None (sorted_list_of_set fs))
                          (group_by_dir (iter U)))"
    and fin: "finite U"
  shows "target_type x = t \<and> name x = None
         \<and> set (triggering_sources x) = basename ` {p \<in> U. dirname p = path x}
         \<and> path x \<in> dirname ` U"
proof -
  obtain d fs where m: "(d, fs) \<in> set (group_by_dir (iter U))"
    and xe: "x = for_target_type t d None (sorted_list_of_set fs)"
    using x by auto
  have v: "fs = basename ` {p \<in> U. dirname p = d}"
    using group_by_dir_value[OF m] it by simp
  then have "finite fs" using fin by simp
  then have s: "set (sorted_list_of_set fs) = fs" by simp
  have "d \<in> dirname ` U"
    using m keys_group_by_dir[of "iter U"] it by (metis fst_conv image_eqI)
  then show ?thesis using xe v s by (simp add: for_target_type_def)
qed

lemma paths_of_declarations:
  "map path (map (\<lambda>(d, fs). for_target_type t d None (sorted_list_of_set fs)) G) = map fst G"
  by (induction G) (auto simp: for_target_type_def)

lemma emitted_paths_unowned:
  assumes it: "set (iter U) = U" and fin: "finite U"
    and rel: "\<forall>p \<in> U. relative_path p"
  shows "set (emitted_paths (map (\<lambda>(d, fs). for_target_type t d None (sorted_list_of_set fs))
                                  (group_by_dir (iter U)))) = U"
proof -
  define ds where "ds = map (\<lambda>(d, fs). for_target_type t d None (sorted_list_of_set fs))
                 (group_by_dir (iter U))"
  have grp: "set (triggering_sources x) = basename ` {p \<in> U. dirname p = path x}"
    if "x \<in> set ds" for x
    using declaration_of_group[where iter=iter and U=U and t=t and x=x, OF it _ fin] that
    unfolding ds_def by simp
  have keys: "path ` set ds = dirname ` U"
  proof -
    have "set (map path ds) = set (map fst (group_by_dir (iter U)))"
      unfolding ds_def paths_of_declarations ..
    then show ?thesis using keys_group_by_dir[of "iter U"] it by simp
  qed
  have "set (emitted_paths ds) \<subseteq> U"
  proof
    fix q assume "q \<in> set (emitted_paths ds)"
    then obtain x f where x: "x \<in> set ds" and f: "f \<in> set (triggering_sources x)"
      and q: "q = join_path (path x) f"
      unfolding emitted_paths_def by auto
    from grp[OF x] f obtain p where p: "p \<in> U" "dirname p = path x" "f = basename p"
      by auto
    have "relative_path p" using rel p(1) by simp
    then have "join_path (dirname p) (basename p) = p" by (rule join_split)
    then show "q \<in> U" using q p by simp
  qed
  moreover have "U \<subseteq> set (emitted_paths ds)"
  proof
    fix p assume p: "p \<in> U"
    then have "dirname p \<in> path ` set ds" unfolding keys by simp
    then have "\<exists>x \<in> set ds. dirname p = path x" by (simp only: image_iff)
    then obtain x where x: "x \<in> set ds" and d: "path x = dirname p" by auto
    have b: "basename p \<in> set (triggering_sources x)"
      unfolding grp[OF x] using p d by simp
    have "relative_path p" using rel p by simp
    then have j: "join_path (path x) (basename p) = p" unfolding d by (rule join_split)
    have "join_path (path x) (basename p) \<in> set (emitted_paths ds)"
      unfolding emitted_paths_def using x b by auto
    then show "p \<in> set (emitted_paths ds)" unfolding j .
  qed
  ultimately show ?thesis unfolding ds_def by (rule equalityI)
qed

text \<open>
  C1. For relative paths: the rule returns declarations such that every path
  \<open>d/f\<close> reconstructed from a declaration with directory \<open>d\<close> and a triggering source
  \<open>f\<close> is an unowned candidate (a resolved file that is not owned); every unowned
  candidate is reconstructed from exactly one declaration of the result; and no two
  declarations have the same declaration type and directory.
\<close>

theorem directory_grouping_correct:
  assumes si: "set_iteration iter"
    and get: "get_paths (path_globs (search_paths req) ''*.kt'') s = (Inr all, s')"
    and rel: "\<forall>p \<in> set (files all). relative_path p"
  shows "\<exists>ds. find_putative_targets iter get_paths req owned s = (Inr ds, s')
     \<and> (\<forall>x \<in> set ds. \<forall>f \<in> set (triggering_sources x).
           join_path (path x) f \<in> unowned_files all owned)
     \<and> (\<forall>p \<in> unowned_files all owned.
           \<exists>!i. i < length ds \<and> p \<in> join_path (path (ds ! i)) ` set (triggering_sources (ds ! i)))
     \<and> distinct (map (\<lambda>x. (target_type x, path x)) ds)"
proof -
  define U where "U = unowned_files all owned"
  define ds where "ds = map (\<lambda>(d, fs). for_target_type KotlinSourcesGeneratorTarget d None
                                   (sorted_list_of_set fs)) (group_by_dir (iter U))"
  have fin: "finite U" unfolding U_def by (rule finite_unowned_files)
  have it: "set (iter U) = U" using si fin by (simp add: set_iteration_def)
  have relU: "\<forall>p \<in> U. relative_path p" using rel unfolding U_def unowned_files_def by simp
  have run: "find_putative_targets iter get_paths req owned s = (Inr ds, s')"
    unfolding ds_def U_def using si get by (rule find_putative_targets_Inr)
  have grp: "set (triggering_sources x) = basename ` {p \<in> U. dirname p = path x}"
    if "x \<in> set ds" for x
    using declaration_of_group[where iter=iter and U=U and t=KotlinSourcesGeneratorTarget and x=x,
                               OF it _ fin] that
    unfolding ds_def by simp
  have paths: "map path ds = map fst (group_by_dir (iter U))"
    unfolding ds_def by (rule paths_of_declarations)
  have dist: "distinct (map path ds)"
    unfolding paths by (rule distinct_keys_group_by_dir)
  have keys: "path ` set ds = dirname ` U"
  proof -
    have "set (map path ds) = set (map fst (group_by_dir (iter U)))" unfolding paths ..
    then show ?thesis using keys_group_by_dir[of "iter U"] it by simp
  qed
  have em: "set (emitted_paths ds) = U"
    unfolding ds_def using it fin relU by (rule emitted_paths_unowned)
  have A: "\<forall>x \<in> set ds. \<forall>f \<in> set (triggering_sources x). join_path (path x) f \<in> U"
    using em unfolding emitted_paths_def by auto
  have B: "\<exists>!i. i < length ds \<and> p \<in> join_path (path (ds ! i)) ` set (triggering_sources (ds ! i))"
    if p: "p \<in> U" for p
  proof -
    have rp: "join_path (dirname p) (basename p) = p" using relU p join_split by simp
    have owner: "path (ds ! i) = dirname p"
      if i: "i < length ds" and m: "p \<in> join_path (path (ds ! i)) ` set (triggering_sources (ds ! i))"
      for i
    proof -
      have xi: "ds ! i \<in> set ds" using i by simp
      obtain f where f: "f \<in> set (triggering_sources (ds ! i))" and pe: "p = join_path (path (ds ! i)) f"
        using m by auto
      obtain q where q: "q \<in> U" "dirname q = path (ds ! i)" "f = basename q"
        using f unfolding grp[OF xi] by auto
      have "join_path (dirname q) (basename q) = q" using relU q(1) join_split by simp
      then have "p = q" using pe q by simp
      then show ?thesis using q by simp
    qed
    have "dirname p \<in> path ` set ds" unfolding keys using p by simp
    then have "\<exists>x \<in> set ds. dirname p = path x" by (simp only: image_iff)
    then obtain x where x: "x \<in> set ds" and d: "path x = dirname p" by auto
    obtain i where i: "i < length ds" and xi: "ds ! i = x" using x by (auto simp: in_set_conv_nth)
    have "basename p \<in> set (triggering_sources x)" unfolding grp[OF x] using p d by simp
    then have mem: "p \<in> join_path (path (ds ! i)) ` set (triggering_sources (ds ! i))"
      unfolding xi d using rp by (metis image_eqI)
    show ?thesis
    proof (rule ex1I[of _ i])
      show "i < length ds \<and> p \<in> join_path (path (ds ! i)) ` set (triggering_sources (ds ! i))"
        using i mem by simp
    next
      fix j assume j: "j < length ds \<and> p \<in> join_path (path (ds ! j)) ` set (triggering_sources (ds ! j))"
      then have "path (ds ! j) = dirname p" using owner by simp
      moreover have "path (ds ! i) = dirname p" using owner i mem by simp
      ultimately have e: "map path ds ! j = map path ds ! i" using i j by simp
      have lj: "j < length (map path ds)" and li: "i < length (map path ds)" using i j by simp_all
      show "j = i" using nth_eq_iff_index_eq[OF dist lj li] e by simp
    qed
  qed
  have B': "\<forall>p \<in> U. \<exists>!i. i < length ds
              \<and> p \<in> join_path (path (ds ! i)) ` set (triggering_sources (ds ! i))"
    by (intro ballI) (rule B)
  have C: "distinct (map (\<lambda>x. (target_type x, path x)) ds)"
  proof -
    have "map snd (map (\<lambda>x. (target_type x, path x)) ds) = map path ds" by simp
    then have "distinct (map snd (map (\<lambda>x. (target_type x, path x)) ds))"
      using dist by (simp only:)
    then show ?thesis by (simp only: distinct_map)
  qed
  show ?thesis
    unfolding U_def[symmetric]
    by (intro exI[of _ ds] conjI) (rule run, rule A, rule B', rule C)
qed

lemma sample_files_relative: "\<forall>p \<in> set (files sample_files). relative_path p"
  by (simp add: sample_files_def relative_path_def)

theorem directory_grouping_correct_witness:
  "''b/Baz.kt'' \<in> unowned_files sample_files [''a/Foo.kt'']
   \<and> (\<exists>ds. find_putative_targets sorted_list_of_set sample_engine sample_request [''a/Foo.kt''] 0
               = (Inr ds, Suc 0)
          \<and> (\<exists>!i. i < length ds
                \<and> ''b/Baz.kt'' \<in> join_path (path (ds ! i)) ` set (triggering_sources (ds ! i)))
          \<and> distinct (map (\<lambda>x. (target_type x, path x)) ds))"
proof -
  have m: "''b/Baz.kt'' \<in> unowned_files sample_files [''a/Foo.kt'']"
    by (simp add: unowned_files_def sample_files_def)
  obtain ds where run: "find_putative_targets sorted_list_of_set sample_engine sample_request
                          [''a/Foo.kt''] 0 = (Inr ds, Suc 0)"
    and B: "\<forall>p \<in> unowned_files sample_files [''a/Foo.kt''].
              \<exists>!i. i < length ds \<and> p \<in> join_path (path (ds ! i)) ` set (triggering_sources (ds ! i))"
    and C: "distinct (map (\<lambda>x. (target_type x, path x)) ds)"
    using directory_grouping_correct
            [where iter=sorted_list_of_set and get_paths=sample_engine and req=sample_request
               and s=0 and all=sample_files and s'="Suc 0" and owned="[''a/Foo.kt'']",
             OF set_iteration_sorted_list_of_set sample_engine_answer sample_files_relative]
    by auto
  have "\<exists>!i. i < length ds
          \<and> ''b/Baz.kt'' \<in> join_path (path (ds ! i)) ` set (triggering_sources (ds ! i))"
    using B m by (rule bspec)
  then show ?thesis using m run C by (intro conjI exI[of _ ds]) assumption+
qed

text \<open>
  C3. Idempotent exclusion, for relative paths: when a first scan has returned the
  declarations \<open>ds\<close>, a scan that resolves the same files, with the owned paths extended
  by every path \<open>d/f\<close> reconstructed from \<open>ds\<close>, returns no declaration.
\<close>

theorem idempotent_exclusion:
  assumes si: "set_iteration iter"
    and get1: "get_paths (path_globs (search_paths req) ''*.kt'') s = (Inr all, sa)"
    and rel: "\<forall>p \<in> set (files all). relative_path p"
    and run1: "find_putative_targets iter get_paths req owned s = (Inr ds, sa)"
    and get2: "get_paths (path_globs (search_paths req) ''*.kt'') t = (Inr all', t')"
    and same: "set (files all') = set (files all)"
  shows "find_putative_targets iter get_paths req (owned @ emitted_paths ds) t = (Inr [], t')"
proof -
  define U where "U = unowned_files all owned"
  have fin: "finite U" unfolding U_def by (rule finite_unowned_files)
  have it: "set (iter U) = U" using si fin by (simp add: set_iteration_def)
  have relU: "\<forall>p \<in> U. relative_path p" using rel unfolding U_def unowned_files_def by simp
  have "find_putative_targets iter get_paths req owned s =
           (Inr (map (\<lambda>(d, fs). for_target_type KotlinSourcesGeneratorTarget d None
                                   (sorted_list_of_set fs))
                     (group_by_dir (iter U))), sa)"
    unfolding U_def using si get1 by (rule find_putative_targets_Inr)
  then have ds: "ds = map (\<lambda>(d, fs). for_target_type KotlinSourcesGeneratorTarget d None
                                   (sorted_list_of_set fs)) (group_by_dir (iter U))"
    using run1 by simp
  have em: "set (emitted_paths ds) = U"
    unfolding ds using it fin relU by (rule emitted_paths_unowned)
  have "unowned_files all' (owned @ emitted_paths ds) = {}"
    using em same unfolding U_def unowned_files_def by auto
  with si get2 show ?thesis by (rule find_putative_targets_no_unowned)
qed

theorem idempotent_exclusion_witness:
  "find_putative_targets sorted_list_of_set sample_engine sample_request [''a/Foo.kt''] 0
     = (Inr [\<lparr>target_type = KotlinSourcesGeneratorTarget, path = ''a'', name = None,
              triggering_sources = [''Bar.kt'']\<rparr>,
             \<lparr>target_type = KotlinSourcesGeneratorTarget, path = ''b'', name = None,
              triggering_sources = [''Baz.kt'']\<rparr>], Suc 0)
   \<and> emitted_paths [\<lparr>target_type = KotlinSourcesGeneratorTarget, path = ''a'', name = None,
              triggering_sources = [''Bar.kt'']\<rparr>,
             \<lparr>target_type = KotlinSourcesGeneratorTarget, path = ''b'', name = None,
              triggering_sources = [''Baz.kt'']\<rparr>] = [''a/Bar.kt'', ''b/Baz.kt'']
   \<and> find_putative_targets sorted_list_of_set sample_engine sample_request
        ([''a/Foo.kt''] @ emitted_paths
            [\<lparr>target_type = KotlinSourcesGeneratorTarget, path = ''a'', name = None,
              triggering_sources = [''Bar.kt'']\<rparr>,
             \<lparr>target_type = KotlinSourcesGeneratorTarget, path = ''b'', name = None,
              triggering_sources = [''Baz.kt'']\<rparr>]) (Suc 0)
     = (Inr [], Suc (Suc 0))"
proof -
  have run1: "find_putative_targets sorted_list_of_set sample_engine sample_request [''a/Foo.kt''] 0
     = (Inr [\<lparr>target_type = KotlinSourcesGeneratorTarget, path = ''a'', name = None,
              triggering_sources = [''Bar.kt'']\<rparr>,
             \<lparr>target_type = KotlinSourcesGeneratorTarget, path = ''b'', name = None,
              triggering_sources = [''Baz.kt'']\<rparr>], Suc 0)"
    using scenario_one_owned by simp
  have e: "emitted_paths [\<lparr>target_type = KotlinSourcesGeneratorTarget, path = ''a'', name = None,
              triggering_sources = [''Bar.kt'']\<rparr>,
             \<lparr>target_type = KotlinSourcesGeneratorTarget, path = ''b'', name = None,
              triggering_sources = [''Baz.kt'']\<rparr>] = [''a/Bar.kt'', ''b/Baz.kt'']"
    by (simp add: emitted_paths_def join_path_def)
  have same: "set (files sample_files) = set (files sample_files)" ..
  note r2 = idempotent_exclusion
            [where iter=sorted_list_of_set and get_paths=sample_engine and req=sample_request
               and s=0 and all=sample_files and sa="Suc 0" and owned="[''a/Foo.kt'']"
               and t="Suc 0" and t'="Suc (Suc 0)" and all'=sample_files,
             OF set_iteration_sorted_list_of_set sample_engine_answer sample_files_relative
                run1 sample_engine_answer same]
  show ?thesis by (intro conjI) (rule run1, rule e, rule r2)
qed

text \<open>
  C5. The set handed to the classifier is the plain difference of the resolved files and
  the owned paths: a path is in it if and only if it is resolved and not owned. The result
  is the loop run on the classification of that set, and (for relative paths) no owned path
  is among the paths reconstructed from the declarations.
\<close>

theorem unowned_is_set_difference:
  "(p \<in> unowned_files all owned \<longleftrightarrow> p \<in> set (files all) \<and> p \<notin> set owned)
   \<and> (set_iteration iter
        \<and> get_paths (path_globs (search_paths req) ''*.kt'') s = (Inr all, s')
        \<and> (\<forall>q \<in> set (files all). relative_path q)
      \<longrightarrow> (\<exists>ds. find_putative_targets iter get_paths req owned s = (Inr ds, s')
             \<and> ds = putative_targets_loop iter
                      (classify_source_files (iter (unowned_files all owned)))
             \<and> set (emitted_paths ds) \<inter> set owned = {}))"
proof -
  have D: "p \<in> unowned_files all owned \<longleftrightarrow> p \<in> set (files all) \<and> p \<notin> set owned"
    by (simp add: unowned_files_def)
  have E: "\<exists>ds. find_putative_targets iter get_paths req owned s = (Inr ds, s')
             \<and> ds = putative_targets_loop iter
                      (classify_source_files (iter (unowned_files all owned)))
             \<and> set (emitted_paths ds) \<inter> set owned = {}"
    if si: "set_iteration iter"
      and get: "get_paths (path_globs (search_paths req) ''*.kt'') s = (Inr all, s')"
      and rel: "\<forall>q \<in> set (files all). relative_path q"
  proof -
    define U where "U = unowned_files all owned"
    define ds where "ds = putative_targets_loop iter (classify_source_files (iter U))"
    have fin: "finite U" unfolding U_def by (rule finite_unowned_files)
    have it: "set (iter U) = U" using si fin by (simp add: set_iteration_def)
    have relU: "\<forall>p \<in> U. relative_path p" using rel unfolding U_def unowned_files_def by simp
    have run: "find_putative_targets iter get_paths req owned s = (Inr ds, s')"
      unfolding ds_def U_def using get by (simp add: find_putative_targets_def Let_def)
    have "ds = map (\<lambda>(d, fs). for_target_type KotlinSourcesGeneratorTarget d None
                                   (sorted_list_of_set fs)) (group_by_dir (iter U))"
      unfolding ds_def using it
      by (simp add: classify_source_files_def Let_def putative_targets_loop_eq)
    then have "set (emitted_paths ds) = U"
      using emitted_paths_unowned[where iter=iter and U=U and t=KotlinSourcesGeneratorTarget,
                                  OF it fin relU]
      by (simp only:)
    then have dis: "set (emitted_paths ds) \<inter> set owned = {}"
      unfolding U_def unowned_files_def by auto
    show ?thesis
      unfolding U_def[symmetric] ds_def[symmetric]
      by (intro exI[of _ ds] conjI) (rule run, rule refl, rule dis)
  qed
  show ?thesis using D E by (intro conjI impI) (assumption, elim conjE, assumption+)
qed

theorem unowned_is_set_difference_witness:
  "''a/Bar.kt'' \<in> unowned_files sample_files [''a/Foo.kt'']
   \<and> ''a/Foo.kt'' \<notin> unowned_files sample_files [''a/Foo.kt'']
   \<and> (\<exists>ds. find_putative_targets sorted_list_of_set sample_engine sample_request [''a/Foo.kt''] 0
               = (Inr ds, Suc 0)
          \<and> set (emitted_paths ds) \<inter> set [''a/Foo.kt''] = {})"
proof -
  have a: "''a/Bar.kt'' \<in> unowned_files sample_files [''a/Foo.kt'']"
    using unowned_is_set_difference
            [where p="''a/Bar.kt''" and all=sample_files and owned="[''a/Foo.kt'']", THEN conjunct1]
    by (simp add: sample_files_def)
  have b: "''a/Foo.kt'' \<notin> unowned_files sample_files [''a/Foo.kt'']"
    using unowned_is_set_difference
            [where p="''a/Foo.kt''" and all=sample_files and owned="[''a/Foo.kt'']", THEN conjunct1]
    by simp
  have h: "set_iteration (sorted_list_of_set :: path set \<Rightarrow> path list)
        \<and> sample_engine (path_globs (search_paths sample_request) ''*.kt'') 0
            = (Inr sample_files, Suc 0)
        \<and> (\<forall>q \<in> set (files sample_files). relative_path q)"
    using set_iteration_sorted_list_of_set sample_engine_answer sample_files_relative by simp
  have c: "\<exists>ds. find_putative_targets sorted_list_of_set sample_engine sample_request [''a/Foo.kt''] 0
               = (Inr ds, Suc 0)
          \<and> ds = putative_targets_loop sorted_list_of_set
                    (classify_source_files (sorted_list_of_set
                       (unowned_files sample_files [''a/Foo.kt''])))
          \<and> set (emitted_paths ds) \<inter> set [''a/Foo.kt''] = {}"
    by (rule mp [OF unowned_is_set_difference
                      [where iter=sorted_list_of_set and get_paths=sample_engine
                         and req=sample_request and s=0 and all=sample_files and s'="Suc 0"
                         and owned="[''a/Foo.kt'']", THEN conjunct2] h])
  then obtain ds where "find_putative_targets sorted_list_of_set sample_engine sample_request
                          [''a/Foo.kt''] 0 = (Inr ds, Suc 0)"
    and "set (emitted_paths ds) \<inter> set [''a/Foo.kt''] = {}"
    by auto
  then have d: "\<exists>ds. find_putative_targets sorted_list_of_set sample_engine sample_request
                          [''a/Foo.kt''] 0 = (Inr ds, Suc 0)
              \<and> set (emitted_paths ds) \<inter> set [''a/Foo.kt''] = {}"
    by (intro exI[of _ ds] conjI)
  show ?thesis by (intro conjI) (rule a, rule b, rule d)
qed

end
